theory Spec2Isabelle
  imports Main "HOL-Library.Word" "HOL-Library.Sublist"
begin

section \<open>Bytes and IP addresses\<close>

text \<open>
  A Go \<^verbatim>\<open>[]byte\<close> is a list of 8-bit words. A \<^verbatim>\<open>net.IP\<close> is a byte slice of
  length 4 or 16; the nil \<^verbatim>\<open>net.IP\<close> is the empty list (the code never builds an
  empty slice that is not nil, so \<^verbatim>\<open>ip != nil\<close> is \<open>ip \<noteq> []\<close>).
\<close>

type_synonym byte = "8 word"
type_synonym IP = "byte list"

text \<open>
  \<^verbatim>\<open>net.IP.Equal\<close> of the Go standard library, which every membership test of the
  repository calls: equal lengths compare bytewise, and a 4-byte address equals the
  16-byte address that carries it behind the IPv4-in-IPv6 prefix.
\<close>

definition v4InV6Prefix :: "byte list" where
  "v4InV6Prefix = [0, 0, 0, 0, 0, 0, 0, 0, 0, 0, 0xff, 0xff]"

definition ip_Equal :: "IP \<Rightarrow> IP \<Rightarrow> bool" where
  "ip_Equal ip x =
     (if length ip = length x then ip = x
      else if length ip = 4 \<and> length x = 16
        then take 12 x = v4InV6Prefix \<and> ip = drop 12 x
      else if length ip = 16 \<and> length x = 4
        then take 12 ip = v4InV6Prefix \<and> drop 12 ip = x
      else False)"

section \<open>The IP set (package ipmap, and its older form in package intra)\<close>

record IPSet =
  ips :: "IP list"
  confirmed :: IP

definition new_IPSet :: IPSet where
  "new_IPSet = \<lparr>ips = [], confirmed = []\<rparr>"

text \<open>The closure \<^verbatim>\<open>has\<close> of \<^verbatim>\<open>Add\<close>: a linear scan with \<^verbatim>\<open>oldIP.Equal(ip)\<close>.\<close>

fun has :: "IP list \<Rightarrow> IP \<Rightarrow> bool" where
  "has [] ip = False"
| "has (oldIP # rest) ip = (if ip_Equal oldIP ip then True else has rest ip)"

text \<open>
  The loop \<^verbatim>\<open>for _, ip := range resolved\<close> of \<^verbatim>\<open>Add\<close>; \<^verbatim>\<open>has\<close> reads the
  set as it is after the appends made so far.
\<close>

fun union_loop :: "IP list \<Rightarrow> IP list \<Rightarrow> IP list" where
  "union_loop cur [] = cur"
| "union_loop cur (ip # rest) =
     union_loop (if \<not> has cur ip then cur @ [ip] else cur) rest"

text \<open>
  \<^verbatim>\<open>Add\<close>/\<^verbatim>\<open>add\<close>. The resolver \<^verbatim>\<open>net.LookupIP\<close> is a parameter; its error is
  dropped by the code, and a failed lookup gives the nil list.
\<close>

definition IPSet_Add :: "(string \<Rightarrow> IP list) \<Rightarrow> IPSet \<Rightarrow> string \<Rightarrow> IPSet" where
  "IPSet_Add LookupIP s hostname =
     (let resolved = LookupIP hostname
      in s\<lparr>ips := union_loop (ips s) resolved\<rparr>)"

text \<open>\<^verbatim>\<open>Empty\<close> of package ipmap: \<^verbatim>\<open>len(s.ips) == 0\<close>.\<close>

definition IPSet_Empty :: "IPSet \<Rightarrow> bool" where
  "IPSet_Empty s = (length (ips s) = 0)"

text \<open>\<^verbatim>\<open>empty\<close> of the older ipSet in package intra: \<^verbatim>\<open>len(s.ips) > 0\<close>.\<close>

definition ipSet_empty :: "IPSet \<Rightarrow> bool" where
  "ipSet_empty s = (length (ips s) > 0)"

definition IPSet_Confirmed :: "IPSet \<Rightarrow> IP" where
  "IPSet_Confirmed s = confirmed s"

text \<open>
  \<^verbatim>\<open>Confirm\<close>/\<^verbatim>\<open>confirm\<close>: \<^verbatim>\<open>net.ParseIP\<close> is a parameter (nil, here \<open>[]\<close>, for a
  string that is not an IP address). The older \<^verbatim>\<open>confirm\<close> has the same two
  statements; its parameter is misnamed \<^verbatim>\<open>ip\<close> where the body reads \<^verbatim>\<open>ipstr\<close>.
\<close>

definition IPSet_Confirm :: "(string \<Rightarrow> IP) \<Rightarrow> IPSet \<Rightarrow> string \<Rightarrow> IPSet" where
  "IPSet_Confirm ParseIP s ipstr =
     (let ip = ParseIP ipstr
      in if ip \<noteq> [] then s\<lparr>confirmed := ip\<rparr> else s)"

text \<open>\<^verbatim>\<open>Disconfirm\<close>/\<^verbatim>\<open>disconfirm\<close>: \<^verbatim>\<open>if ip.Equal(s.confirmed) { s.confirmed = nil }\<close>.\<close>

definition IPSet_Disconfirm :: "IPSet \<Rightarrow> IP \<Rightarrow> IPSet" where
  "IPSet_Disconfirm s ip =
     (if ip_Equal ip (confirmed s) then s\<lparr>confirmed := []\<rparr> else s)"

text \<open>
  Invariant (i) of the data model: the confirmed address, if there is one, is found in
  the sequence by the set's own membership test.
\<close>

definition confirmed_member :: "IPSet \<Rightarrow> bool" where
  "confirmed_member s = (confirmed s = [] \<or> has (ips s) (confirmed s))"

text \<open>Addresses and a parser used at concrete inputs.\<close>

definition ip_8_8_8_8 :: IP where
  "ip_8_8_8_8 = [8, 8, 8, 8]"

definition ip_8_8_4_4 :: IP where
  "ip_8_8_4_4 = [8, 8, 4, 4]"

definition ip16_8_8_8_8 :: IP where
  "ip16_8_8_8_8 = v4InV6Prefix @ [8, 8, 8, 8]"

text \<open>
  A parser that agrees with \<^verbatim>\<open>net.ParseIP\<close> on the one string it accepts:
  \<^verbatim>\<open>net.ParseIP("8.8.8.8")\<close> is the 16-byte form of 8.8.8.8.
\<close>

definition parse_only_8888 :: "string \<Rightarrow> IP" where
  "parse_only_8888 str = (if str = ''8.8.8.8'' then ip16_8_8_8_8 else [])"

section \<open>Errors, panics and Go's slice primitives\<close>

text \<open>
  Go error values. The messages built with \<^verbatim>\<open>fmt.Errorf\<close> are kept as constructors
  with their arguments (\<open>ResponseStatus\<close> is \<^verbatim>\<open>fmt.Errorf(response.Status)\<close>, the
  status text of the response with that code); an error handed back by a library call
  (\<^verbatim>\<open>url.Parse\<close>, \<^verbatim>\<open>http.NewRequest\<close>, \<^verbatim>\<open>client.Do\<close>, \<^verbatim>\<open>ioutil.ReadAll\<close>,
  \<^verbatim>\<open>Write\<close>) is \<open>LibraryError\<close> with its text.
\<close>

datatype go_error =
    QueryLengthIs nat
  | HTTPRequestFailed int
  | ResponseStatus int
  | BadScheme string
  | NoIPAddressesFor string
  | OversizeResponse nat
  | IncompleteResponseWrite int nat
  | LibraryError string

datatype panic = IndexOutOfRange | SliceBoundsOutOfRange

text \<open>The status codes, an \<^verbatim>\<open>iota\<close> block.\<close>

definition Complete :: nat where "Complete = 0"
definition SendFailed :: nat where "SendFailed = 1"
definition HTTPError :: nat where "HTTPError = 2"
definition BadQuery :: nat where "BadQuery = 3"
definition BadResponse :: nat where "BadResponse = 4"
definition InternalError :: nat where "InternalError = 5"

text \<open>
  The builtin \<^verbatim>\<open>copy(dst, src)\<close>: the first \<open>min (len dst) (len src)\<close> elements of
  \<open>dst\<close> are overwritten; the result is \<open>dst\<close> afterwards.
\<close>

definition copy_go :: "'a list \<Rightarrow> 'a list \<Rightarrow> 'a list" where
  "copy_go dst src = take (min (length dst) (length src)) src @ drop (length src) dst"

text \<open>
  \<^verbatim>\<open>binary.BigEndian.PutUint16(b, v)\<close>: a bounds check on \<^verbatim>\<open>b[1]\<close>, then
  \<^verbatim>\<open>b[0] = byte(v >> 8); b[1] = byte(v)\<close>.
\<close>

definition PutUint16 :: "byte list \<Rightarrow> 16 word \<Rightarrow> panic + byte list" where
  "PutUint16 b v =
     (if length b < 2 then Inl IndexOutOfRange
      else Inr (b[0 := ucast (drop_bit 8 v), 1 := ucast v]))"

section \<open>The DoH transport: Query\<close>

text \<open>
  What the HTTP client does is the environment of a query: whether
  \<^verbatim>\<open>http.NewRequest\<close> fails, what \<^verbatim>\<open>client.Do\<close> answers to the posted body (an
  error, or a status code with the bytes and the error that \<^verbatim>\<open>ioutil.ReadAll\<close> gives
  for the body), and the host that the \<^verbatim>\<open>GotConn\<close> trace stored (the empty string
  when it did not run).
\<close>

datatype do_result =
    DoFailed go_error
  | DoResponse int "byte list" "go_error option"

record http_env =
  NewRequest_err :: "go_error option"
  client_Do :: "byte list \<Rightarrow> do_result"
  GotConn_host :: string

subsection \<open>doh.go: errors returned as they come\<close>

text \<open>
  The caller's slice \<^verbatim>\<open>q\<close> is written in place, so the result carries it as it is
  when the call returns. A nil response is \<open>None\<close>.
\<close>

record query_v1_result =
  q_after_v1 :: "byte list"
  ret_v1 :: "byte list option"
  err_v1 :: "go_error option"

definition Query_v1 :: "http_env \<Rightarrow> byte list \<Rightarrow> query_v1_result" where
  "Query_v1 env q =
     (if length q < 2
      then \<lparr>q_after_v1 = q, ret_v1 = None, err_v1 = Some (QueryLengthIs (length q))\<rparr>
      else
        let id0 = q ! 0; id1 = q ! 1;
            q1 = q[0 := 0, 1 := 0]
        in case NewRequest_err env of
             Some err \<Rightarrow> \<lparr>q_after_v1 = q1, ret_v1 = None, err_v1 = Some err\<rparr>
           | None \<Rightarrow>
              (case client_Do env q1 of
                 DoFailed err \<Rightarrow> \<lparr>q_after_v1 = q1, ret_v1 = None, err_v1 = Some err\<rparr>
               | DoResponse StatusCode body read_err \<Rightarrow>
                   if StatusCode \<noteq> 200
                   then \<lparr>q_after_v1 = q1, ret_v1 = None,
                          err_v1 = Some (ResponseStatus StatusCode)\<rparr>
                   else
                     let q2 = q1[0 := id0, 1 := id1];
                         ret = (if length body \<ge> 2 then body[0 := id0, 1 := id1] else body)
                     in \<lparr>q_after_v1 = q2, ret_v1 = Some ret, err_v1 = read_err\<rparr>))"

subsection \<open>The classified-error variant: doQuery and Query\<close>

text \<open>A \<^verbatim>\<open>*queryError\<close>: the status and the wrapped error.\<close>

record queryError =
  status :: nat
  err :: go_error

record doQuery_result =
  q_after :: "byte list"
  response :: "byte list option"
  server :: string
  qerr :: "queryError option"

text \<open>
  \<^verbatim>\<open>doQuery\<close> has named results, so a bare \<^verbatim>\<open>return\<close> gives back what they hold:
  \<^verbatim>\<open>response\<close> stays nil until \<^verbatim>\<open>ReadAll\<close>, \<^verbatim>\<open>server\<close> is written by the trace
  during \<^verbatim>\<open>client.Do\<close> only. The error of \<^verbatim>\<open>ReadAll\<close> goes to the local
  \<^verbatim>\<open>err\<close>, never to \<^verbatim>\<open>qerr\<close>.
\<close>

definition doQuery :: "http_env \<Rightarrow> byte list \<Rightarrow> doQuery_result" where
  "doQuery env q =
     (if length q < 2
      then \<lparr>q_after = q, response = None, server = [],
             qerr = Some \<lparr>status = BadQuery, err = QueryLengthIs (length q)\<rparr>\<rparr>
      else
        let id0 = q ! 0; id1 = q ! 1;
            q1 = q[0 := 0, 1 := 0]
        in case NewRequest_err env of
             Some e \<Rightarrow> \<lparr>q_after = q1, response = None, server = [],
                          qerr = Some \<lparr>status = InternalError, err = e\<rparr>\<rparr>
           | None \<Rightarrow>
              (case client_Do env q1 of
                 DoFailed e \<Rightarrow> \<lparr>q_after = q1, response = None, server = GotConn_host env,
                                  qerr = Some \<lparr>status = SendFailed, err = e\<rparr>\<rparr>
               | DoResponse StatusCode body read_err \<Rightarrow>
                   if StatusCode \<noteq> 200
                   then \<lparr>q_after = q1, response = None, server = GotConn_host env,
                          qerr = Some \<lparr>status = HTTPError,
                                        err = HTTPRequestFailed StatusCode\<rparr>\<rparr>
                   else
                     let q2 = q1[0 := id0, 1 := id1];
                         resp = (if length body \<ge> 2 then body[0 := id0, 1 := id1] else body)
                     in \<lparr>q_after = q2, response = Some resp, server = GotConn_host env,
                          qerr = None\<rparr>))"

text \<open>
  The summary handed to the listener. \<^verbatim>\<open>Query: q\<close> is the caller's slice itself, so the
  listener reads it as \<^verbatim>\<open>doQuery\<close> left it. The latency is kept as the
  \<^verbatim>\<open>time.Duration\<close> (nanoseconds) between the two clock readings.
\<close>

record DNSSummary =
  Latency :: int
  Query :: "byte list"
  Response :: "byte list option"
  Server :: string
  Status :: nat

record Query_result =
  q_final :: "byte list"
  Query_response :: "byte list option"
  Query_err :: "queryError option"
  reported :: "DNSSummary list"

text \<open>
  \<^verbatim>\<open>Query\<close>: \<open>has_listener\<close> is \<^verbatim>\<open>t.listener != nil\<close>, \<open>before\<close> and \<open>after\<close> are
  the two readings of \<^verbatim>\<open>time.Now()\<close>.
\<close>

definition Query_v3 ::
  "bool \<Rightarrow> int \<Rightarrow> int \<Rightarrow> http_env \<Rightarrow> byte list \<Rightarrow> Query_result" where
  "Query_v3 has_listener before after env q =
     (let r = doQuery env q;
          latency = after - before;
          st = (case qerr r of Some e \<Rightarrow> status e | None \<Rightarrow> Complete)
      in \<lparr>q_final = q_after r,
          Query_response = response r,
          Query_err = qerr r,
          reported =
            (if has_listener
             then [\<lparr>Latency = latency, Query = q_after r, Response = response r,
                    Server = server r, Status = st\<rparr>]
             else [])\<rparr>)"

section \<open>The TCP forwarder's worker\<close>

text \<open>
  An \<^verbatim>\<open>io.Writer\<close>: the buffers handed to \<^verbatim>\<open>Write\<close> so far, one entry per call, and
  what the stream answers (bytes written, error) to a call.
\<close>

record writer =
  written :: "byte list list"
  Write_answer :: "byte list \<Rightarrow> int \<times> go_error option"

definition Write ::
  "'a writer_scheme \<Rightarrow> byte list \<Rightarrow> 'a writer_scheme \<times> int \<times> go_error option" where
  "Write c b = (c\<lparr>written := written c @ [b]\<rparr>, Write_answer c b)"

text \<open>
  The free function \<^verbatim>\<open>forwardQuery(t, q, c)\<close>. The transport is any
  \<^verbatim>\<open>DNSTransport\<close>: its \<^verbatim>\<open>Query\<close> is a parameter giving the response (nil is
  \<open>[]\<close>: only \<^verbatim>\<open>len\<close> and \<^verbatim>\<open>copy\<close> read it) and the error.
\<close>

definition forwardQuery ::
  "(byte list \<Rightarrow> byte list \<times> go_error option) \<Rightarrow> byte list \<Rightarrow> writer
     \<Rightarrow> panic + (writer \<times> go_error option)" where
  "forwardQuery t_Query q c =
     (case t_Query q of
        (resp, Some e) \<Rightarrow> Inr (c, Some e)
      | (resp, None) \<Rightarrow>
          let rlen = length resp
          in if rlen > 65535 then Inr (c, Some (OversizeResponse rlen))
             else
               let rlbuf0 = replicate (rlen + 2) (0 :: byte)
               in (case PutUint16 rlbuf0 (of_nat rlen) of
                    Inl p \<Rightarrow> Inl p
                  | Inr rlbuf1 \<Rightarrow>
                      let rlbuf = take 2 rlbuf1 @ copy_go (drop 2 rlbuf1) resp
                      in (case Write c rlbuf of
                            (c', n, write_err) \<Rightarrow>
                              (case write_err of
                                 Some e \<Rightarrow> Inr (c', Some e)
                               | None \<Rightarrow>
                                   if n \<noteq> int (length rlbuf)
                                   then Inr (c', Some (IncompleteResponseWrite n
                                                        (length rlbuf)))
                                   else Inr (c', None)))))"

subsection \<open>The older method forwardQuery (doh.go, and the same body on an io.ReadWriteCloser)\<close>

text \<open>A stream that can also be closed.\<close>

record conn = writer +
  closed :: bool

definition Close :: "conn \<Rightarrow> conn" where
  "Close c = c\<lparr>closed := True\<rparr>"

text \<open>
  \<^verbatim>\<open>net.Buffers.WriteTo(w)\<close> of the Go standard library, on a stream that is not one
  of package net's own connections (those take all buffers in one \<^verbatim>\<open>writev\<close>): the
  loop \<^verbatim>\<open>for _, b := range *v { nb, err := w.Write(b); n += int64(nb); ... }\<close>, which
  stops at the first error. The pipe-backed \<^verbatim>\<open>fakeConn\<close> of the tests is such a
  stream.
\<close>

fun WriteTo_loop ::
  "conn \<Rightarrow> byte list list \<Rightarrow> int \<Rightarrow> conn \<times> int \<times> go_error option" where
  "WriteTo_loop w [] n = (w, n, None)"
| "WriteTo_loop w (b # v) n =
     (case Write w b of
        (w', nb, write_err) \<Rightarrow>
          (case write_err of
             Some e \<Rightarrow> (w', n + nb, Some e)
           | None \<Rightarrow> WriteTo_loop w' v (n + nb)))"

definition Buffers_WriteTo :: "byte list list \<Rightarrow> conn \<Rightarrow> conn \<times> int \<times> go_error option" where
  "Buffers_WriteTo v w = WriteTo_loop w v 0"

text \<open>
  The method \<^verbatim>\<open>forwardQuery(q, c)\<close>: a two-byte \<^verbatim>\<open>rlbuf\<close> for the length, then
  \<^verbatim>\<open>combined := net.Buffers{rlbuf, resp}\<close> and \<^verbatim>\<open>combined.WriteTo(c)\<close>; the socket
  is closed on a query error, an oversize response, a write error or a short write
  (\<^verbatim>\<open>err != nil || int(n) != rlen + 2\<close>, the error tested first).
\<close>

definition forwardQuery_v1 ::
  "(byte list \<Rightarrow> byte list \<times> go_error option) \<Rightarrow> byte list \<Rightarrow> conn \<Rightarrow> panic + conn" where
  "forwardQuery_v1 t_Query q c =
     (case t_Query q of
        (resp, Some e) \<Rightarrow> Inr (Close c)
      | (resp, None) \<Rightarrow>
          let rlen = length resp
          in if rlen > 65535 then Inr (Close c)
             else
               (case PutUint16 (replicate 2 0) (of_nat rlen) of
                  Inl p \<Rightarrow> Inl p
                | Inr rlbuf \<Rightarrow>
                    let combined = [rlbuf, resp]
                    in (case Buffers_WriteTo combined c of
                          (c', n, write_err) \<Rightarrow>
                            (case write_err of
                               Some e \<Rightarrow> Inr (Close c')
                             | None \<Rightarrow>
                                 if n \<noteq> int rlen + 2 then Inr (Close c') else Inr c'))))"

section \<open>The dialer's preference list (doh.go)\<close>

record transport_v1 =
  url_v1 :: string
  port_v1 :: int
  addrs :: "IP list"

definition getAddrs :: "transport_v1 \<Rightarrow> IP list" where
  "getAddrs t = [] @ addrs t"

text \<open>
  \<^verbatim>\<open>preferAddr(addrs, i)\<close>, statement by statement. \<^verbatim>\<open>t.addrs[0] = addrs[i]\<close> panics
  when \<open>i\<close> is not an index of the snapshot or the stored list is empty. The slice
  expressions \<^verbatim>\<open>t.addrs[1:i+1]\<close> and \<^verbatim>\<open>t.addrs[i+1:]\<close> need \<open>i + 1\<close> within the
  capacity and the length of the stored list: when \<open>i + 1\<close> exceeds the length, the
  second of them panics at the latest, whatever the capacity, so the call panics.
\<close>

definition preferAddr :: "transport_v1 \<Rightarrow> IP list \<Rightarrow> nat \<Rightarrow> panic + transport_v1" where
  "preferAddr t snapshot i =
     (if i = 0 then Inr t
      else if \<not> i < length snapshot \<or> length (addrs t) = 0 then Inl IndexOutOfRange
      else
        let a1 = (addrs t)[0 := snapshot ! i]
        in if length a1 < i + 1 then Inl SliceBoundsOutOfRange
           else
             let a2 = take 1 a1 @ copy_go (take i (drop 1 a1)) (take i snapshot)
                        @ drop (i + 1) a1;
                 a3 = take (i + 1) a2 @ copy_go (drop (i + 1) a2) (drop (i + 1) snapshot)
             in Inr (t\<lparr>addrs := a3\<rparr>))"

text \<open>
  \<^verbatim>\<open>dial\<close>: the loop \<^verbatim>\<open>for i, addr := range addrs\<close> over the snapshot.
  \<^verbatim>\<open>DialWithSplitRetry\<close> is a parameter; a connection is named by what it answers.
  The result holds the named results \<^verbatim>\<open>conn\<close> and \<^verbatim>\<open>err\<close> of the last attempt.
\<close>

fun dial_range ::
  "(IP \<Rightarrow> int \<Rightarrow> go_error + 'conn) \<Rightarrow> transport_v1 \<Rightarrow> IP list \<Rightarrow> nat \<Rightarrow> IP list
     \<Rightarrow> 'conn option \<times> go_error option
     \<Rightarrow> panic + (transport_v1 \<times> 'conn option \<times> go_error option)" where
  "dial_range DialWithSplitRetry t snapshot i [] prev = Inr (t, prev)"
| "dial_range DialWithSplitRetry t snapshot i (addr # rest) prev =
     (case DialWithSplitRetry addr (port_v1 t) of
        Inr conn \<Rightarrow>
          (case preferAddr t snapshot i of
             Inl p \<Rightarrow> Inl p
           | Inr t' \<Rightarrow> Inr (t', Some conn, None))
      | Inl e \<Rightarrow> dial_range DialWithSplitRetry t snapshot (i + 1) rest (None, Some e))"

definition dial ::
  "(IP \<Rightarrow> int \<Rightarrow> go_error + 'conn) \<Rightarrow> transport_v1
     \<Rightarrow> panic + (transport_v1 \<times> 'conn option \<times> go_error option)" where
  "dial DialWithSplitRetry t =
     (let snapshot = getAddrs t
      in dial_range DialWithSplitRetry t snapshot 0 snapshot (None, None))"

section \<open>Construction of the transport\<close>

text \<open>
  The library calls of \<^verbatim>\<open>NewDoHTransport\<close> are its environment: \<^verbatim>\<open>url.Parse\<close> with
  the three parts of the URL that are read, \<^verbatim>\<open>strconv.Atoi\<close>, and the resolver
  \<^verbatim>\<open>net.LookupIP\<close> (its error is dropped; a failed lookup gives the nil list). The
  resolver answers a name the same way throughout one construction.
\<close>

record parsed_url =
  Scheme :: string
  Port :: string
  Hostname :: string

record net_env =
  url_Parse :: "string \<Rightarrow> go_error + parsed_url"
  Atoi :: "string \<Rightarrow> go_error + int"
  LookupIP :: "string \<Rightarrow> IP list"

subsection \<open>doh.go: addAddrs appends\<close>

definition addAddrs :: "net_env \<Rightarrow> transport_v1 \<Rightarrow> string \<Rightarrow> transport_v1" where
  "addAddrs env t hostname =
     (let resolved = LookupIP env hostname
      in t\<lparr>addrs := addrs t @ resolved\<rparr>)"

definition NewDoHTransport_v1 ::
  "net_env \<Rightarrow> string \<Rightarrow> string list \<Rightarrow> go_error + transport_v1" where
  "NewDoHTransport_v1 env rawurl fallback =
     (case url_Parse env rawurl of
        Inl e \<Rightarrow> Inl e
      | Inr parsedurl \<Rightarrow>
          if Scheme parsedurl \<noteq> ''https'' then Inl (BadScheme (Scheme parsedurl))
          else
            (case (if length (Port parsedurl) > 0 then Atoi env (Port parsedurl)
                   else Inr 443) of
               Inl e \<Rightarrow> Inl e
             | Inr port \<Rightarrow>
                 let t0 = \<lparr>url_v1 = rawurl, port_v1 = port, addrs = []\<rparr>;
                     t1 = addAddrs env t0 (Hostname parsedurl);
                     t2 = foldl (addAddrs env) t1 fallback
                 in if length (addrs t2) = 0
                    then Inl (NoIPAddressesFor (Hostname parsedurl))
                    else Inr t2))"

subsection \<open>The classified-error variant: add skips known addresses\<close>

record transport_v3 =
  url :: string
  domain :: string
  port :: int
  t_ips :: "IP list"
  has_listener :: bool

text \<open>The inner loop of \<^verbatim>\<open>add\<close>: \<^verbatim>\<open>found\<close> after scanning \<^verbatim>\<open>dest\<close>.\<close>

fun found_in :: "IP list \<Rightarrow> IP \<Rightarrow> bool" where
  "found_in [] new = False"
| "found_in (old # dest) new = (if ip_Equal old new then True else found_in dest new)"

fun add :: "IP list \<Rightarrow> IP list \<Rightarrow> IP list" where
  "add dest [] = dest"
| "add dest (new # src) = add (if \<not> found_in dest new then dest @ [new] else dest) src"

definition NewDoHTransport_v3 ::
  "net_env \<Rightarrow> string \<Rightarrow> string list \<Rightarrow> bool \<Rightarrow> go_error + transport_v3" where
  "NewDoHTransport_v3 env rawurl fallback listener =
     (case url_Parse env rawurl of
        Inl e \<Rightarrow> Inl e
      | Inr parsedurl \<Rightarrow>
          if Scheme parsedurl \<noteq> ''https'' then Inl (BadScheme (Scheme parsedurl))
          else
            (case (if length (Port parsedurl) > 0 then Atoi env (Port parsedurl)
                   else Inr 443) of
               Inl e \<Rightarrow> Inl e
             | Inr p \<Rightarrow>
                 let ips0 = LookupIP env (Hostname parsedurl);
                     ips1 = foldl (\<lambda>cur addr. add cur (LookupIP env addr)) ips0 fallback
                 in if length ips1 = 0
                    then Inl (NoIPAddressesFor (Hostname parsedurl))
                    else Inr \<lparr>url = rawurl, domain = Hostname parsedurl, port = p,
                              t_ips = ips1, has_listener = listener\<rparr>))"

text \<open>
  The spec's words for what follows the host's addresses: the fallback addresses in
  order, each one kept unless it is IP-equal to an address already in the list (the
  host's, or a fallback address kept before it).
\<close>

fun fresh_in_order :: "IP list \<Rightarrow> IP list \<Rightarrow> IP list" where
  "fresh_in_order seen [] = []"
| "fresh_in_order seen (x # xs) =
     (if \<exists>y \<in> set seen. ip_Equal y x then fresh_in_order seen xs
      else x # fresh_in_order (seen @ [x]) xs)"

text \<open>No two entries equal under \<^verbatim>\<open>net.IP.Equal\<close>.\<close>

fun distinct_ips :: "IP list \<Rightarrow> bool" where
  "distinct_ips [] = True"
| "distinct_ips (ip # rest) = (\<not> found_in rest ip \<and> distinct_ips rest)"

section \<open>The hostname map\<close>

text \<open>
  Set objects live in a store and are named by their address, so that two pointers are
  the same set exactly when the addresses are equal. \<open>m\<close> is the Go map (an absent
  key reads as the nil pointer, \<open>None\<close>), \<open>objects\<close> the store, \<open>next_addr\<close> the
  address that the next \<^verbatim>\<open>&IPSet{}\<close> gets.
\<close>

record ipMap =
  m :: "string \<rightharpoonup> nat"
  objects :: "nat \<rightharpoonup> IPSet"
  next_addr :: nat

subsection \<open>The older map: the whole of get under one mutex\<close>

definition ipMap_get :: "(string \<Rightarrow> IP list) \<Rightarrow> ipMap \<Rightarrow> string \<Rightarrow> ipMap \<times> nat" where
  "ipMap_get resolver st hostname =
     (case m st hostname of
        None \<Rightarrow>
          let a = next_addr st;
              st1 = st\<lparr>m := (m st)(hostname \<mapsto> a),
                       objects := (objects st)(a \<mapsto> new_IPSet),
                       next_addr := a + 1\<rparr>;
              st2 = st1\<lparr>objects := (objects st1)(a \<mapsto> IPSet_Add resolver new_IPSet hostname)\<rparr>
          in (st2, a)
      | Some s \<Rightarrow> (st, s))"

text \<open>A sequence of calls, each with the resolver's answers at that time; the log of
  what each call returned.\<close>

fun ipMap_gets ::
  "ipMap \<Rightarrow> ((string \<Rightarrow> IP list) \<times> string) list \<Rightarrow> (string \<times> nat) list" where
  "ipMap_gets st [] = []"
| "ipMap_gets st ((resolver, hostname) # calls) =
     (case ipMap_get resolver st hostname of
        (st', s) \<Rightarrow> (hostname, s) # ipMap_gets st' calls)"

subsection \<open>Package ipmap: Get with a read lock, an unlocked build and a locked install\<close>

text \<open>
  \<^verbatim>\<open>Get\<close> touches the map in two critical sections, and between them builds a set
  that no other goroutine can reach. A goroutine inside \<^verbatim>\<open>Get\<close> is therefore at one
  of two points: it has read nil under the read lock (\<open>Missed\<close>), or it holds the set
  it built (\<open>Built\<close>). Goroutines are numbered; \<open>returned\<close> logs every return of
  \<^verbatim>\<open>Get\<close> in the order it happens.
\<close>

datatype pc = Idle | Missed string | Built string nat

record IPMap_run = ipMap +
  pcs :: "nat \<Rightarrow> pc"
  returned :: "(string \<times> nat) list"

definition NewIPMap :: IPMap_run where
  "NewIPMap = \<lparr>m = Map.empty, objects = Map.empty, next_addr = 0,
               pcs = (\<lambda>g. Idle), returned = []\<rparr>"

text \<open>
  One event: goroutine \<open>g\<close> runs its next section. An idle goroutine calls
  \<^verbatim>\<open>Get(hostname)\<close> and runs the read-locked lookup; \<open>resolver\<close> is what
  \<^verbatim>\<open>net.LookupIP\<close> answers while the goroutine builds its set.
\<close>

datatype event = Step nat string "string \<Rightarrow> IP list"

fun step :: "event \<Rightarrow> IPMap_run \<Rightarrow> IPMap_run" where
  "step (Step g hostname resolver) st =
     (case pcs st g of
        Idle \<Rightarrow>
          (case m st hostname of
             Some s \<Rightarrow> st\<lparr>returned := returned st @ [(hostname, s)]\<rparr>
           | None \<Rightarrow> st\<lparr>pcs := (pcs st)(g := Missed hostname)\<rparr>)
      | Missed h \<Rightarrow>
          (let a = next_addr st;
               s = IPSet_Add resolver new_IPSet h
           in st\<lparr>objects := (objects st)(a \<mapsto> s), next_addr := a + 1,
                 pcs := (pcs st)(g := Built h a)\<rparr>)
      | Built h s \<Rightarrow>
          (case m st h of
             None \<Rightarrow> st\<lparr>m := (m st)(h \<mapsto> s), pcs := (pcs st)(g := Idle),
                          returned := returned st @ [(h, s)]\<rparr>
           | Some s2 \<Rightarrow> st\<lparr>pcs := (pcs st)(g := Idle),
                             returned := returned st @ [(h, s2)]\<rparr>))"

fun run :: "event list \<Rightarrow> IPMap_run \<Rightarrow> IPMap_run" where
  "run [] st = st"
| "run (e # es) st = run es (step e st)"

section \<open>Concrete inputs\<close>

text \<open>A resolver that knows one address for every name, and the set it fills.\<close>

definition resolver_8844 :: "string \<Rightarrow> IP list" where
  "resolver_8844 hostname = [ip_8_8_4_4]"

definition resolver_8888 :: "string \<Rightarrow> IP list" where
  "resolver_8888 hostname = [ip_8_8_8_8]"

text \<open>HTTP environments: a refused connection, a server error, and a server that
  answers the posted body followed by two more bytes.\<close>

definition env_send_fails :: http_env where
  "env_send_fails =
     \<lparr>NewRequest_err = None,
      client_Do = (\<lambda>body. DoFailed (LibraryError ''connection refused'')),
      GotConn_host = []\<rparr>"

definition env_http_500 :: http_env where
  "env_http_500 =
     \<lparr>NewRequest_err = None,
      client_Do = (\<lambda>body. DoResponse 500 [] None),
      GotConn_host = ''8.8.8.8''\<rparr>"

definition env_echo :: http_env where
  "env_echo =
     \<lparr>NewRequest_err = None,
      client_Do = (\<lambda>body. DoResponse 200 (body @ [7, 7]) None),
      GotConn_host = ''8.8.8.8''\<rparr>"

text \<open>A third address, and the transport of the promotion scenario.\<close>

definition ip_1_1_1_1 :: IP where
  "ip_1_1_1_1 = [1, 1, 1, 1]"

definition transport_ABC :: transport_v1 where
  "transport_ABC =
     \<lparr>url_v1 = ''https://dns.google/dns-query'', port_v1 = 443,
      addrs = [ip_8_8_8_8, ip_8_8_4_4, ip_1_1_1_1]\<rparr>"

text \<open>A dialer that reaches 8.8.4.4 only.\<close>

definition dial_8844_only :: "IP \<Rightarrow> int \<Rightarrow> go_error + (IP \<times> int)" where
  "dial_8844_only ip p =
     (if ip = ip_8_8_4_4 then Inr (ip, p) else Inl (LibraryError ''i/o timeout''))"

text \<open>The transport and the stream of the forwarder's happy path.\<close>

definition fake_Query :: "byte list \<Rightarrow> byte list \<times> go_error option" where
  "fake_Query q = ([5, 4, 3, 2, 1], None)"

definition pipe_writer :: writer where
  "pipe_writer = \<lparr>written = [], Write_answer = (\<lambda>b. (int (length b), None))\<rparr>"

definition pipe_conn :: conn where
  "pipe_conn =
     \<lparr>written = [], Write_answer = (\<lambda>b. (int (length b), None)), closed = False\<rparr>"

text \<open>
  A network where \<^verbatim>\<open>dns.google\<close> resolves to 8.8.8.8 and 8.8.4.4 (4-byte
  addresses, as they come from A records) and the literals \<^verbatim>\<open>8.8.8.8\<close> and
  \<^verbatim>\<open>1.1.1.1\<close> to themselves in the 16-byte form that \<^verbatim>\<open>net.LookupIP\<close> gives for
  a literal; and one whose resolver lists the same address twice.
\<close>

definition ip16_1_1_1_1 :: IP where
  "ip16_1_1_1_1 = v4InV6Prefix @ [1, 1, 1, 1]"

definition parse_google :: "string \<Rightarrow> go_error + parsed_url" where
  "parse_google rawurl =
     (if rawurl = ''https://dns.google/dns-query''
      then Inr \<lparr>Scheme = ''https'', Port = [], Hostname = ''dns.google''\<rparr>
      else Inl (LibraryError ''parse error''))"

definition env_google :: net_env where
  "env_google =
     \<lparr>url_Parse = parse_google,
      Atoi = (\<lambda>s. Inl (LibraryError ''invalid syntax'')),
      LookupIP = (\<lambda>name. if name = ''dns.google'' then [ip_8_8_8_8, ip_8_8_4_4]
                          else if name = ''8.8.8.8'' then [ip16_8_8_8_8]
                          else if name = ''1.1.1.1'' then [ip16_1_1_1_1] else [])\<rparr>"

definition env_twice :: net_env where
  "env_twice =
     \<lparr>url_Parse = parse_google,
      Atoi = (\<lambda>s. Inl (LibraryError ''invalid syntax'')),
      LookupIP = (\<lambda>name. [ip_8_8_8_8, ip_8_8_8_8])\<rparr>"

text \<open>
  The new map of the older variant, and a schedule in which goroutines 1 and 2 both miss,
  both build a set, 2 installs first and 1 loses; then goroutine 3 asks.
\<close>

definition new_ipMap :: ipMap where
  "new_ipMap = \<lparr>m = Map.empty, objects = Map.empty, next_addr = 0\<rparr>"

definition race_schedule :: "event list" where
  "race_schedule =
     [Step 1 ''dns.google'' resolver_8888, Step 2 ''dns.google'' resolver_8844,
      Step 1 ''dns.google'' resolver_8888, Step 2 ''dns.google'' resolver_8844,
      Step 2 ''dns.google'' resolver_8844, Step 1 ''dns.google'' resolver_8888]"

definition later_schedule :: "event list" where
  "later_schedule = [Step 3 ''dns.google'' resolver_8888]"

text \<open>Every logged return of \<^verbatim>\<open>Get\<close> is the set installed for its hostname.\<close>

definition returns_installed :: "IPMap_run \<Rightarrow> bool" where
  "returns_installed st = (\<forall>(h, p) \<in> set (returned st). m st h = Some p)"

section \<open>Properties of the IP set\<close>

lemma has_append: "has (xs @ ys) ip = (has xs ip \<or> has ys ip)"
  by (induction xs) auto

lemma has_union_loop_mono: "has cur ip \<Longrightarrow> has (union_loop cur resolved) ip"
  by (induction resolved arbitrary: cur) (auto simp: has_append)

lemma new_IPSet_confirmed_member: "confirmed_member new_IPSet"
  by (simp add: confirmed_member_def new_IPSet_def)

text \<open>
  Claim C2, as the code has it. \<^verbatim>\<open>Confirm\<close> stores every address that parses, so
  membership of the confirmed address is not an invariant of the set. What holds:
  from a state where the confirmed address, if any, is in the sequence, \<^verbatim>\<open>Add\<close> and
  \<^verbatim>\<open>Disconfirm\<close> keep it so; \<^verbatim>\<open>Confirm\<close> of a valid string makes the parsed
  address the confirmed one; and after \<^verbatim>\<open>Confirm\<close> the confirmed address is in the
  sequence exactly when the string was invalid or named an address of the sequence.
\<close>

theorem confirmed_member_preserved:
  assumes "confirmed_member s"
  shows "confirmed_member (IPSet_Add resolver s hostname)
       \<and> confirmed_member (IPSet_Disconfirm s ip)
       \<and> (ParseIP ipstr \<noteq> [] \<longrightarrow>
            IPSet_Confirmed (IPSet_Confirm ParseIP s ipstr) = ParseIP ipstr)
       \<and> confirmed_member (IPSet_Confirm ParseIP s ipstr)
           = (ParseIP ipstr = [] \<or> has (ips s) (ParseIP ipstr))"
  using assms
  by (auto simp: confirmed_member_def IPSet_Add_def IPSet_Disconfirm_def IPSet_Confirm_def
      IPSet_Confirmed_def Let_def has_union_loop_mono)

theorem confirmed_member_preserved_witness:
  "confirmed_member \<lparr>ips = [ip_8_8_8_8], confirmed = []\<rparr>
   \<and> confirmed_member (IPSet_Add resolver_8844 \<lparr>ips = [ip_8_8_8_8], confirmed = []\<rparr> ''dns.google'')
   \<and> confirmed_member (IPSet_Disconfirm \<lparr>ips = [ip_8_8_8_8], confirmed = []\<rparr> ip_8_8_8_8)
   \<and> parse_only_8888 ''8.8.8.8'' \<noteq> []
   \<and> IPSet_Confirmed (IPSet_Confirm parse_only_8888 \<lparr>ips = [ip_8_8_8_8], confirmed = []\<rparr> ''8.8.8.8'')
       = ip16_8_8_8_8
   \<and> confirmed_member (IPSet_Confirm parse_only_8888 \<lparr>ips = [ip_8_8_8_8], confirmed = []\<rparr> ''8.8.8.8'')"
  using confirmed_member_preserved
    [of "\<lparr>ips = [ip_8_8_8_8], confirmed = []\<rparr>" resolver_8844 "''dns.google''" ip_8_8_8_8
        parse_only_8888 "''8.8.8.8''"]
  by (simp add: confirmed_member_def parse_only_8888_def ip16_8_8_8_8_def ip_8_8_8_8_def
      ip_Equal_def v4InV6Prefix_def)

text \<open>
  Claim C2 as stated fails: the set that holds only 8.8.4.4 has no confirmed address,
  8.8.8.8 is a valid IP string, and after \<^verbatim>\<open>Confirm("8.8.8.8")\<close> the confirmed address
  is not in the sequence.
\<close>

theorem Confirm_breaks_confirmed_member:
  "confirmed_member (IPSet_Add resolver_8844 new_IPSet ''dns.google'')
   \<and> parse_only_8888 ''8.8.8.8'' \<noteq> []
   \<and> \<not> confirmed_member
        (IPSet_Confirm parse_only_8888 (IPSet_Add resolver_8844 new_IPSet ''dns.google'')
           ''8.8.8.8'')"
  by (simp add: confirmed_member_def IPSet_Confirm_def IPSet_Add_def new_IPSet_def
      resolver_8844_def parse_only_8888_def ip16_8_8_8_8_def ip_8_8_4_4_def ip_Equal_def
      v4InV6Prefix_def)

text \<open>
  Claim C3: \<^verbatim>\<open>empty\<close>/\<^verbatim>\<open>Empty\<close> is true exactly for a set with no addresses.
  \<^verbatim>\<open>Empty\<close> of package ipmap is; the older \<^verbatim>\<open>empty\<close> answers the opposite:
  false on the new set, true on a set of one address.
\<close>

theorem ipSet_empty_inverted:
  "ipSet_empty new_IPSet = False
   \<and> ipSet_empty (IPSet_Add resolver_8888 new_IPSet ''dns.google'') = True
   \<and> IPSet_Empty new_IPSet = True
   \<and> IPSet_Empty (IPSet_Add resolver_8888 new_IPSet ''dns.google'') = False"
  by (simp add: ipSet_empty_def IPSet_Empty_def IPSet_Add_def new_IPSet_def resolver_8888_def)

text \<open>
  Claim C10: \<^verbatim>\<open>Confirm\<close> and \<^verbatim>\<open>Disconfirm\<close> leave the sequence of addresses as it
  was, for every set and every argument; only the confirmed slot can change.
\<close>

theorem Confirm_Disconfirm_keep_ips:
  "ips (IPSet_Confirm ParseIP s ipstr) = ips s \<and> ips (IPSet_Disconfirm s ip) = ips s"
  by (simp add: IPSet_Confirm_def IPSet_Disconfirm_def Let_def)

section \<open>Properties of Query\<close>

lemma id_patched:
  "2 \<le> length body \<Longrightarrow> 2 \<le> length q \<Longrightarrow>
     take 2 (body[0 := q ! 0, Suc 0 := q ! Suc 0]) = take 2 q"
  by (cases body; cases "tl body"; cases q; cases "tl q") auto

lemma drop2_update: "drop 2 (xs[0 := a, Suc 0 := b]) = drop 2 xs"
  by (cases xs; cases "tl xs") auto

text \<open>The query's ID is back in place when the query succeeds.\<close>

lemma doQuery_success_restores_id:
  "2 \<le> length q \<Longrightarrow> qerr (doQuery env q) = None \<Longrightarrow> q_after (doQuery env q) = q"
  apply (auto simp: doQuery_def Let_def split: option.splits do_result.splits if_splits)
  apply (cases q; cases "tl q"; auto)
  done

text \<open>
  Claim C1: bytes 0 and 1 of the query are as before on every exit of the query
  operation. The code restores them after \<^verbatim>\<open>ReadAll\<close> only; the returns taken when
  the send fails or the status is not 200 leave them zero. With ID \<open>(0xAB, 0xCD)\<close>
  the caller's buffer is \<open>[0, 0, 1, 0]\<close> afterwards, in both variants, and that is
  also the query the listener is shown.
\<close>

theorem doQuery_failure_leaves_id_zeroed:
  "q_after (doQuery env_send_fails [0xAB, 0xCD, 1, 0]) = [0, 0, 1, 0]
   \<and> q_after (doQuery env_http_500 [0xAB, 0xCD, 1, 0]) = [0, 0, 1, 0]
   \<and> q_after_v1 (Query_v1 env_send_fails [0xAB, 0xCD, 1, 0]) = [0, 0, 1, 0]
   \<and> q_after_v1 (Query_v1 env_http_500 [0xAB, 0xCD, 1, 0]) = [0, 0, 1, 0]
   \<and> q_final (Query_v3 True 0 5 env_send_fails [0xAB, 0xCD, 1, 0]) = [0, 0, 1, 0]
   \<and> map Query (reported (Query_v3 True 0 5 env_send_fails [0xAB, 0xCD, 1, 0]))
       = [[0, 0, 1, 0]]"
  by (simp add: doQuery_def Query_v1_def Query_v3_def env_send_fails_def env_http_500_def)

text \<open>
  Claim C6: a successful query of at least two bytes returns the body that the server
  sent with its first two bytes replaced by those of the query, when the body has at
  least two bytes, and the body itself when it is shorter. Stated for \<^verbatim>\<open>Query\<close> of
  both variants; success is a nil error.
\<close>

theorem Query_response_carries_query_id:
  assumes "2 \<le> length q"
  shows "(Query_err (Query_v3 l before after env q) = None \<longrightarrow>
           (\<exists>body read_err r.
              client_Do env (q[0 := 0, 1 := 0]) = DoResponse 200 body read_err
              \<and> Query_response (Query_v3 l before after env q) = Some r
              \<and> (2 \<le> length r \<longrightarrow> take 2 r = take 2 q)
              \<and> (length r < 2 \<longrightarrow> r = body)
              \<and> length r = length body \<and> drop 2 r = drop 2 body))
       \<and> (err_v1 (Query_v1 env q) = None \<longrightarrow>
           (\<exists>body r.
              client_Do env (q[0 := 0, 1 := 0]) = DoResponse 200 body None
              \<and> ret_v1 (Query_v1 env q) = Some r
              \<and> (2 \<le> length r \<longrightarrow> take 2 r = take 2 q)
              \<and> (length r < 2 \<longrightarrow> r = body)
              \<and> length r = length body \<and> drop 2 r = drop 2 body))"
  using assms
  by (auto simp: Query_v3_def doQuery_def Query_v1_def Let_def id_patched drop2_update
      split: option.splits do_result.splits if_splits)

theorem Query_response_carries_query_id_witness:
  "2 \<le> length [0xAB, 0xCD, 1 :: byte]
   \<and> Query_err (Query_v3 True 0 5 env_echo [0xAB, 0xCD, 1]) = None
   \<and> Query_response (Query_v3 True 0 5 env_echo [0xAB, 0xCD, 1]) = Some [0xAB, 0xCD, 1, 7, 7]
   \<and> err_v1 (Query_v1 env_echo [0xAB, 0xCD, 1]) = None
   \<and> ret_v1 (Query_v1 env_echo [0xAB, 0xCD, 1]) = Some [0xAB, 0xCD, 1, 7, 7]"
  using Query_response_carries_query_id [of "[0xAB, 0xCD, 1]" True 0 5 env_echo]
  by (simp add: Query_v3_def doQuery_def Query_v1_def env_echo_def)

text \<open>
  Claim C9: in the classified-error variant, a non-nil error comes with a nil response,
  from \<^verbatim>\<open>doQuery\<close> and from \<^verbatim>\<open>Query\<close>.
\<close>

theorem Query_error_gives_nil_response:
  "(qerr (doQuery env q) \<noteq> None \<longrightarrow> response (doQuery env q) = None)
   \<and> (Query_err (Query_v3 l before after env q) \<noteq> None \<longrightarrow>
        Query_response (Query_v3 l before after env q) = None)"
  by (auto simp: Query_v3_def doQuery_def Let_def
      split: option.splits do_result.splits if_splits)

theorem Query_error_gives_nil_response_witness:
  "qerr (doQuery env_http_500 [1, 2, 3]) \<noteq> None
   \<and> response (doQuery env_http_500 [1, 2, 3]) = None
   \<and> Query_err (Query_v3 True 0 5 env_http_500 [1, 2, 3]) \<noteq> None
   \<and> Query_response (Query_v3 True 0 5 env_http_500 [1, 2, 3]) = None"
  using Query_error_gives_nil_response [of env_http_500 "[1, 2, 3]" True 0 5]
  by (simp add: Query_v3_def doQuery_def env_http_500_def)

section \<open>Properties of the forwarder\<close>

lemma PutUint16_high_byte:
  assumes "n \<le> 65535"
  shows "(ucast (drop_bit 8 (of_nat n :: 16 word)) :: 8 word) = of_nat (n div 256)"
proof -
  have "unat (of_nat n :: 16 word) = n"
    using assms by (simp add: unat_of_nat)
  then have "unat (drop_bit 8 (of_nat n :: 16 word)) = n div 256"
    by (simp add: unat_drop_bit_eq drop_bit_eq_div unat_div)
  then have "unat (ucast (drop_bit 8 (of_nat n :: 16 word)) :: 8 word) = (n div 256) mod 256"
    by (simp add: unsigned_ucast_eq take_bit_eq_mod)
  moreover have "unat (of_nat (n div 256) :: 8 word) = (n div 256) mod 256"
    by (simp add: unat_of_nat)
  ultimately show ?thesis
    by (simp add: word_unat_eq_iff)
qed

lemma PutUint16_low_byte:
  assumes "n \<le> 65535"
  shows "(ucast (of_nat n :: 16 word) :: 8 word) = of_nat (n mod 256)"
proof -
  have "unat (of_nat n :: 16 word) = n"
    using assms by (simp add: unat_of_nat)
  then have "unat (ucast (of_nat n :: 16 word) :: 8 word) = n mod 256"
    by (simp add: unsigned_ucast_eq take_bit_eq_mod)
  moreover have "unat (of_nat (n mod 256) :: 8 word) = n mod 256"
    by (simp add: unat_of_nat)
  ultimately show ?thesis
    by (simp add: word_unat_eq_iff)
qed

text \<open>Without a response to send, \<^verbatim>\<open>forwardQuery\<close> writes nothing.\<close>

lemma forwardQuery_no_write_on_error:
  "t_Query q = (resp, Some e) \<Longrightarrow> forwardQuery t_Query q c = Inr (c, Some e)"
  by (simp add: forwardQuery_def)

text \<open>
  The free function makes exactly one \<^verbatim>\<open>Write\<close> call for a response of at most
  65535 bytes returned without error, and its buffer is the length of the response as
  two bytes, high byte first, followed by the response.
\<close>

lemma forwardQuery_writes_one_frame:
  assumes "t_Query q = (resp, None)" and "length resp \<le> 65535"
  shows "\<exists>e. forwardQuery t_Query q c =
           Inr (c\<lparr>written := written c @
                    [[of_nat (length resp div 256), of_nat (length resp mod 256)] @ resp]\<rparr>,
                e)"
  using assms
  by (auto simp: forwardQuery_def Let_def PutUint16_def Write_def copy_go_def
      PutUint16_high_byte PutUint16_low_byte split: prod.splits option.splits)

lemma replicate_two: "replicate 2 x = [x, x]"
  by (simp add: numeral_2_eq_2)

text \<open>
  The older method, on a stream that is not a socket of package net and takes the
  length prefix without error, makes two \<^verbatim>\<open>Write\<close> calls: the two length bytes, then
  the response.
\<close>

lemma forwardQuery_v1_writes_two_buffers:
  assumes "t_Query q = (resp, None)" and "length resp \<le> 65535"
    and "snd (Write_answer c [of_nat (length resp div 256), of_nat (length resp mod 256)])
           = None"
  shows "\<exists>c'. forwardQuery_v1 t_Query q c = Inr c'
           \<and> written c' = written c @
                [[of_nat (length resp div 256), of_nat (length resp mod 256)], resp]"
  using assms
  by (auto simp: forwardQuery_v1_def Let_def PutUint16_def Buffers_WriteTo_def Write_def
      Close_def replicate_two PutUint16_high_byte PutUint16_low_byte
      split: prod.splits option.splits)

text \<open>
  Claim C8: the worker writes the framed response in one write of the buffer
  \<open>[len_hi, len_lo] @ resp\<close>, never the prefix and the payload separately. The free
  function does: for the response \<open>[5, 4, 3, 2, 1]\<close> its one \<^verbatim>\<open>Write\<close> carries
  \<open>[0, 5, 5, 4, 3, 2, 1]\<close>. The older method, on the pipe-backed stream of the tests,
  issues \<open>[0, 5]\<close> and \<open>[5, 4, 3, 2, 1]\<close> as two \<^verbatim>\<open>Write\<close> calls.
\<close>

theorem forwardQuery_v1_splits_the_frame:
  "forwardQuery_v1 fake_Query [1, 2, 3, 4, 5] pipe_conn =
     Inr (pipe_conn\<lparr>written := [[0, 5], [5, 4, 3, 2, 1]]\<rparr>)
   \<and> forwardQuery fake_Query [1, 2, 3, 4, 5] pipe_writer =
     Inr (pipe_writer\<lparr>written := [[0, 5, 5, 4, 3, 2, 1]]\<rparr>, None)"
  by (auto simp: forwardQuery_v1_def forwardQuery_def fake_Query_def pipe_conn_def
      pipe_writer_def Let_def PutUint16_def Buffers_WriteTo_def Write_def Close_def
      copy_go_def replicate_two)

section \<open>Properties of the dialer\<close>

lemma copy_go_same_length: "length dst = length src \<Longrightarrow> copy_go dst src = src"
  by (simp add: copy_go_def)

lemma length_copy_go: "length (copy_go dst src) = length dst"
  by (auto simp: copy_go_def)

text \<open>\<^verbatim>\<open>preferAddr\<close> never changes the length of the stored list, so a snapshot has
  the length of the list it is applied to.\<close>

lemma preferAddr_length:
  "preferAddr t snapshot i = Inr t' \<Longrightarrow> length (addrs t') = length (addrs t)"
  by (auto simp: preferAddr_def Let_def length_copy_go split: if_splits)

text \<open>The rotation that \<^verbatim>\<open>preferAddr\<close> performs on a list as long as the snapshot.\<close>

lemma preferAddr_promotes_general:
  assumes "length (addrs t) = length snapshot" and "i < length snapshot"
  shows "preferAddr t snapshot i =
           Inr (if i = 0 then t
                else t\<lparr>addrs := snapshot ! i # take i snapshot @ drop (i + 1) snapshot\<rparr>)"
proof (cases "i = 0")
  case True
  then show ?thesis by (simp add: preferAddr_def)
next
  case False
  let ?a1 = "(addrs t)[0 := snapshot ! i]"
  have len: "length ?a1 = length snapshot"
    using assms by simp
  have c1: "copy_go (take i (drop 1 ?a1)) (take i snapshot) = take i snapshot"
    using assms False by (intro copy_go_same_length) auto
  have t1: "take 1 ?a1 = [snapshot ! i]"
    using assms False by (cases "addrs t") auto
  let ?a2 = "[snapshot ! i] @ take i snapshot @ drop (i + 1) ?a1"
  have t2: "take (i + 1) ?a2 = snapshot ! i # take i snapshot"
    using assms by simp
  have d2: "drop (i + 1) ?a2 = drop (i + 1) ?a1"
    using assms by simp
  have c2: "copy_go (drop (i + 1) ?a1) (drop (i + 1) snapshot) = drop (i + 1) snapshot"
    using len by (intro copy_go_same_length) simp
  show ?thesis
    using False assms
    unfolding preferAddr_def Let_def c1 t1
    by (simp only: t2 d2 c2) auto
qed

text \<open>The loop of \<^verbatim>\<open>dial\<close> calls \<^verbatim>\<open>preferAddr\<close> with the index of the first
  address that connects.\<close>

lemma dial_range_first_success:
  assumes "k \<le> i" and "i < length snapshot"
    and "\<forall>j. k \<le> j \<and> j < i \<longrightarrow> isl (D (snapshot ! j) (port_v1 t))"
    and "D (snapshot ! i) (port_v1 t) = Inr conn"
  shows "dial_range D t snapshot k (drop k snapshot) prev =
           (case preferAddr t snapshot i of
              Inl p \<Rightarrow> Inl p
            | Inr t' \<Rightarrow> Inr (t', Some conn, None))"
  using assms
proof (induction "i - k" arbitrary: k prev)
  case 0
  then have "k = i" by simp
  moreover have "drop i snapshot = snapshot ! i # drop (Suc i) snapshot"
    using 0 by (simp add: Cons_nth_drop_Suc)
  ultimately show ?case using 0 by simp
next
  case (Suc d)
  then have lt: "k < i" by simp
  then have "drop k snapshot = snapshot ! k # drop (Suc k) snapshot"
    using Suc.prems by (simp add: Cons_nth_drop_Suc)
  moreover obtain e where "D (snapshot ! k) (port_v1 t) = Inl e"
    using Suc.prems lt by (cases "D (snapshot ! k) (port_v1 t)") auto
  moreover have "dial_range D t snapshot (Suc k) (drop (Suc k) snapshot) (None, Some e) =
           (case preferAddr t snapshot i of
              Inl p \<Rightarrow> Inl p
            | Inr t' \<Rightarrow> Inr (t', Some conn, None))"
    using Suc by (intro Suc.hyps(1)) auto
  ultimately show ?case by simp
qed

lemma dial_promotes_first_success:
  assumes "i < length (addrs t)"
    and "\<forall>j. j < i \<longrightarrow> isl (D (addrs t ! j) (port_v1 t))"
    and "D (addrs t ! i) (port_v1 t) = Inr conn"
  shows "dial D t =
           Inr (if i = 0 then t
                else t\<lparr>addrs := addrs t ! i # take i (addrs t) @ drop (i + 1) (addrs t)\<rparr>,
                Some conn, None)"
proof -
  have "dial D t =
          (case preferAddr t (addrs t) i of
             Inl p \<Rightarrow> Inl p
           | Inr t' \<Rightarrow> Inr (t', Some conn, None))"
    unfolding dial_def getAddrs_def Let_def append_Nil
    using dial_range_first_success [of 0 i "addrs t" D t conn "(None, None)"] assms
    by simp
  moreover have "preferAddr t (addrs t) i =
           Inr (if i = 0 then t
                else t\<lparr>addrs := addrs t ! i # take i (addrs t) @ drop (i + 1) (addrs t)\<rparr>)"
    using assms(1) by (intro preferAddr_promotes_general) simp_all
  ultimately show ?thesis by simp
qed

text \<open>
  Claim C5: for a snapshot of the stored list and an index \<open>i\<close> of it,
  \<^verbatim>\<open>preferAddr\<close> returns normally; for \<open>i > 0\<close> the stored list becomes
  \<open>snapshot[i]\<close>, then \<open>snapshot[0..i-1]\<close>, then \<open>snapshot[i+1..]\<close>; for \<open>i = 0\<close>
  it is unchanged. So it is after \<^verbatim>\<open>dial\<close>, when the attempts before index \<open>i\<close>
  fail and the one at \<open>i\<close> connects.
\<close>

theorem preferAddr_promotes:
  "(length (addrs t) = length snapshot \<and> i < length snapshot \<longrightarrow>
      preferAddr t snapshot i =
        Inr (if i = 0 then t
             else t\<lparr>addrs := snapshot ! i # take i snapshot @ drop (i + 1) snapshot\<rparr>))
   \<and> (k < length (addrs t) \<and> (\<forall>j. j < k \<longrightarrow> isl (D (addrs t ! j) (port_v1 t)))
        \<and> D (addrs t ! k) (port_v1 t) = Inr conn \<longrightarrow>
      dial D t =
        Inr (if k = 0 then t
             else t\<lparr>addrs := addrs t ! k # take k (addrs t) @ drop (k + 1) (addrs t)\<rparr>,
             Some conn, None))"
  using preferAddr_promotes_general [of t snapshot i]
    dial_promotes_first_success [of k t D conn]
  by blast

theorem preferAddr_promotes_witness:
  "length (addrs transport_ABC) = length [ip_8_8_8_8, ip_8_8_4_4, ip_1_1_1_1]
   \<and> (2 :: nat) < length [ip_8_8_8_8, ip_8_8_4_4, ip_1_1_1_1]
   \<and> preferAddr transport_ABC [ip_8_8_8_8, ip_8_8_4_4, ip_1_1_1_1] 2
       = Inr (transport_ABC\<lparr>addrs := [ip_1_1_1_1, ip_8_8_8_8, ip_8_8_4_4]\<rparr>)
   \<and> (1 :: nat) < length (addrs transport_ABC)
   \<and> isl (dial_8844_only (addrs transport_ABC ! 0) (port_v1 transport_ABC))
   \<and> dial_8844_only (addrs transport_ABC ! 1) (port_v1 transport_ABC)
       = Inr (ip_8_8_4_4, 443)
   \<and> dial dial_8844_only transport_ABC
       = Inr (transport_ABC\<lparr>addrs := [ip_8_8_4_4, ip_8_8_8_8, ip_1_1_1_1]\<rparr>,
              Some (ip_8_8_4_4, 443), None)"
  using preferAddr_promotes
    [of transport_ABC "[ip_8_8_8_8, ip_8_8_4_4, ip_1_1_1_1]" 2 1 dial_8844_only
        "(ip_8_8_4_4, 443)"]
  by (simp add: transport_ABC_def dial_8844_only_def ip_8_8_8_8_def ip_8_8_4_4_def
      ip_1_1_1_1_def)

section \<open>Properties of the construction\<close>

lemma ip_Equal_refl: "ip_Equal x x"
  by (simp add: ip_Equal_def)

lemma ip_Equal_sym: "ip_Equal x y = ip_Equal y x"
  by (auto simp: ip_Equal_def)

lemma found_in_iff: "found_in dest new = (\<exists>old \<in> set dest. ip_Equal old new)"
  by (induction dest) auto

lemma addrs_foldl_addAddrs:
  "addrs (foldl (addAddrs env) t names) = addrs t @ concat (map (LookupIP env) names)"
  by (induction names arbitrary: t) (auto simp: addAddrs_def)

lemma add_append: "add dest (xs @ ys) = add (add dest xs) ys"
  by (induction xs arbitrary: dest) auto

lemma foldl_add:
  "foldl (\<lambda>cur addr. add cur (LookupIP env addr)) dest names
     = add dest (concat (map (LookupIP env) names))"
  by (induction names arbitrary: dest) (auto simp: add_append)

text \<open>
  What \<^verbatim>\<open>add\<close> appends: a subsequence of \<open>src\<close>, free of repetitions and of
  addresses that \<open>dest\<close> has, all under \<^verbatim>\<open>Equal\<close>.
\<close>

lemma add_appends_new:
  "\<exists>new. add dest src = dest @ new \<and> subseq new src \<and> distinct_ips new
         \<and> (\<forall>x \<in> set new. \<not> found_in dest x)"
proof (induction src arbitrary: dest)
  case Nil
  then show ?case by simp
next
  case (Cons x src)
  show ?case
  proof (cases "found_in dest x")
    case True
    obtain new where "add dest src = dest @ new" "subseq new src" "distinct_ips new"
        "\<forall>y \<in> set new. \<not> found_in dest y"
      using Cons [of dest] by blast
    then show ?thesis
      using True by auto
  next
    case False
    obtain new where new: "add (dest @ [x]) src = (dest @ [x]) @ new" "subseq new src"
        "distinct_ips new" "\<forall>y \<in> set new. \<not> found_in (dest @ [x]) y"
      using Cons [of "dest @ [x]"] by blast
    have "\<not> found_in new x"
      using new(4) by (auto simp: found_in_iff ip_Equal_sym)
    moreover have "\<forall>y \<in> set (x # new). \<not> found_in dest y"
      using new(4) False by (auto simp: found_in_iff)
    ultimately show ?thesis
      using False new by (intro exI [of _ "x # new"]) auto
  qed
qed

lemma add_fresh_in_order: "add dest src = dest @ fresh_in_order dest src"
  by (induction src arbitrary: dest) (auto simp: found_in_iff)

lemma found_in_add_mono: "found_in dest x \<Longrightarrow> found_in (add dest src) x"
  by (induction src arbitrary: dest) (auto simp: found_in_iff)

lemma add_covers: "x \<in> set src \<Longrightarrow> found_in (add dest src) x"
proof (induction src arbitrary: dest)
  case Nil
  then show ?case by simp
next
  case (Cons y src)
  show ?case
  proof (cases "x = y")
    case True
    have "found_in (if \<not> found_in dest y then dest @ [y] else dest) y"
      by (auto simp: found_in_iff ip_Equal_refl)
    then show ?thesis
      using True by (simp add: found_in_add_mono)
  next
    case False
    then show ?thesis
      using Cons by auto
  qed
qed

lemma distinct_ips_snoc:
  "distinct_ips (dest @ [x]) = (distinct_ips dest \<and> \<not> found_in dest x)"
  by (induction dest) (auto simp: found_in_iff ip_Equal_sym)

lemma distinct_ips_add: "distinct_ips dest \<Longrightarrow> distinct_ips (add dest src)"
  by (induction src arbitrary: dest) (auto simp: distinct_ips_snoc)

text \<open>
  Claim C4, as the code has it. In doh.go (and the variant with the same
  \<^verbatim>\<open>addAddrs\<close>) a successful construction stores the resolved addresses of the URL
  host followed by those of each fallback in order, nothing removed. In the
  classified-error variant it stores the resolved addresses of the URL host as they
  come, followed, in order, by exactly those resolved fallback addresses that are not
  \<^verbatim>\<open>Equal\<close> to an address already in the list. This tail is a subsequence of the
  fallbacks' addresses without repetition and without an address of the host's; every
  fallback address is \<^verbatim>\<open>Equal\<close> to a stored one; and when the host's own addresses
  are pairwise different, no address is stored twice.
\<close>

theorem NewDoHTransport_preference_list:
  "(NewDoHTransport_v1 env rawurl fallback = Inr t1 \<longrightarrow>
      (\<exists>u. url_Parse env rawurl = Inr u
         \<and> addrs t1 = LookupIP env (Hostname u) @ concat (map (LookupIP env) fallback)))
   \<and> (NewDoHTransport_v3 env rawurl fallback listener = Inr t3 \<longrightarrow>
      (\<exists>u new. url_Parse env rawurl = Inr u
         \<and> new = fresh_in_order (LookupIP env (Hostname u))
                   (concat (map (LookupIP env) fallback))
         \<and> t_ips t3 = LookupIP env (Hostname u) @ new
         \<and> subseq new (concat (map (LookupIP env) fallback))
         \<and> distinct_ips new
         \<and> (\<forall>x \<in> set new. \<not> found_in (LookupIP env (Hostname u)) x)
         \<and> (\<forall>x \<in> set (concat (map (LookupIP env) fallback)). found_in (t_ips t3) x)
         \<and> (distinct_ips (LookupIP env (Hostname u)) \<longrightarrow> distinct_ips (t_ips t3))))"
proof (intro conjI impI)
  assume "NewDoHTransport_v1 env rawurl fallback = Inr t1"
  then show "\<exists>u. url_Parse env rawurl = Inr u
         \<and> addrs t1 = LookupIP env (Hostname u) @ concat (map (LookupIP env) fallback)"
    by (auto simp: NewDoHTransport_v1_def Let_def addrs_foldl_addAddrs addAddrs_def
        split: sum.splits if_splits)
next
  assume "NewDoHTransport_v3 env rawurl fallback listener = Inr t3"
  then obtain u where u: "url_Parse env rawurl = Inr u"
    and ips: "t_ips t3 = add (LookupIP env (Hostname u)) (concat (map (LookupIP env) fallback))"
    by (auto simp: NewDoHTransport_v3_def Let_def foldl_add split: sum.splits if_splits)
  define new where
    "new = fresh_in_order (LookupIP env (Hostname u)) (concat (map (LookupIP env) fallback))"
  have eq: "t_ips t3 = LookupIP env (Hostname u) @ new"
    unfolding ips new_def by (rule add_fresh_in_order)
  obtain new' where new': "t_ips t3 = LookupIP env (Hostname u) @ new'"
      "subseq new' (concat (map (LookupIP env) fallback))" "distinct_ips new'"
      "\<forall>x \<in> set new'. \<not> found_in (LookupIP env (Hostname u)) x"
    using add_appends_new ips by metis
  have same: "new' = new"
    using eq new'(1) by simp
  have cov: "\<forall>x \<in> set (concat (map (LookupIP env) fallback)). found_in (t_ips t3) x"
    unfolding ips by (blast intro: add_covers)
  have dis: "distinct_ips (LookupIP env (Hostname u)) \<longrightarrow> distinct_ips (t_ips t3)"
    unfolding ips by (blast intro: distinct_ips_add)
  show "\<exists>u new. url_Parse env rawurl = Inr u
         \<and> new = fresh_in_order (LookupIP env (Hostname u))
                   (concat (map (LookupIP env) fallback))
         \<and> t_ips t3 = LookupIP env (Hostname u) @ new
         \<and> subseq new (concat (map (LookupIP env) fallback))
         \<and> distinct_ips new
         \<and> (\<forall>x \<in> set new. \<not> found_in (LookupIP env (Hostname u)) x)
         \<and> (\<forall>x \<in> set (concat (map (LookupIP env) fallback)). found_in (t_ips t3) x)
         \<and> (distinct_ips (LookupIP env (Hostname u)) \<longrightarrow> distinct_ips (t_ips t3))"
    using u new_def eq new'(2-4) cov dis unfolding same by blast
qed

theorem NewDoHTransport_preference_list_witness:
  "NewDoHTransport_v1 env_google ''https://dns.google/dns-query''
       [''1.1.1.1'', ''8.8.8.8'', ''1.1.1.1''] =
     Inr \<lparr>url_v1 = ''https://dns.google/dns-query'', port_v1 = 443,
          addrs = [ip_8_8_8_8, ip_8_8_4_4, ip16_1_1_1_1, ip16_8_8_8_8, ip16_1_1_1_1]\<rparr>
   \<and> NewDoHTransport_v3 env_google ''https://dns.google/dns-query''
       [''1.1.1.1'', ''8.8.8.8'', ''1.1.1.1''] True =
     Inr \<lparr>url = ''https://dns.google/dns-query'', domain = ''dns.google'', port = 443,
          t_ips = [ip_8_8_8_8, ip_8_8_4_4, ip16_1_1_1_1], has_listener = True\<rparr>
   \<and> LookupIP env_google ''dns.google'' = [ip_8_8_8_8, ip_8_8_4_4]
   \<and> concat (map (LookupIP env_google) [''1.1.1.1'', ''8.8.8.8'', ''1.1.1.1''])
       = [ip16_1_1_1_1, ip16_8_8_8_8, ip16_1_1_1_1]
   \<and> fresh_in_order [ip_8_8_8_8, ip_8_8_4_4] [ip16_1_1_1_1, ip16_8_8_8_8, ip16_1_1_1_1]
       = [ip16_1_1_1_1]
   \<and> distinct_ips [ip_8_8_8_8, ip_8_8_4_4]
   \<and> \<not> found_in [ip_8_8_8_8, ip_8_8_4_4] ip16_1_1_1_1
   \<and> found_in [ip_8_8_8_8, ip_8_8_4_4, ip16_1_1_1_1] ip16_8_8_8_8
   \<and> found_in [ip_8_8_8_8, ip_8_8_4_4, ip16_1_1_1_1] ip16_1_1_1_1
   \<and> distinct_ips [ip_8_8_8_8, ip_8_8_4_4, ip16_1_1_1_1]"
  using NewDoHTransport_preference_list
    [of env_google "''https://dns.google/dns-query''" "[''1.1.1.1'', ''8.8.8.8'', ''1.1.1.1'']"
        "\<lparr>url_v1 = ''https://dns.google/dns-query'', port_v1 = 443,
          addrs = [ip_8_8_8_8, ip_8_8_4_4, ip16_1_1_1_1, ip16_8_8_8_8, ip16_1_1_1_1]\<rparr>"
        True
        "\<lparr>url = ''https://dns.google/dns-query'', domain = ''dns.google'', port = 443,
          t_ips = [ip_8_8_8_8, ip_8_8_4_4, ip16_1_1_1_1], has_listener = True\<rparr>"]
  by (simp add: NewDoHTransport_v1_def NewDoHTransport_v3_def env_google_def parse_google_def
      addAddrs_def ip_Equal_def ip_8_8_8_8_def ip_8_8_4_4_def ip16_8_8_8_8_def
      ip16_1_1_1_1_def v4InV6Prefix_def)

text \<open>
  Claim C4 as stated fails. In doh.go, with \<^verbatim>\<open>dns.google\<close> resolving to 8.8.8.8 and
  8.8.4.4 and the fallback \<^verbatim>\<open>8.8.8.8\<close>, the stored list holds 8.8.8.8 twice (once in
  its 4-byte and once in its 16-byte form, which \<^verbatim>\<open>Equal\<close> identifies). In the
  classified-error variant, a resolver that lists the host's address twice leaves it
  twice in the stored list.
\<close>

theorem NewDoHTransport_keeps_duplicates:
  "NewDoHTransport_v1 env_google ''https://dns.google/dns-query'' [''8.8.8.8''] =
     Inr \<lparr>url_v1 = ''https://dns.google/dns-query'', port_v1 = 443,
          addrs = [ip_8_8_8_8, ip_8_8_4_4, ip16_8_8_8_8]\<rparr>
   \<and> ip_Equal ip_8_8_8_8 ip16_8_8_8_8
   \<and> \<not> distinct_ips [ip_8_8_8_8, ip_8_8_4_4, ip16_8_8_8_8]
   \<and> NewDoHTransport_v3 env_twice ''https://dns.google/dns-query'' [] True =
     Inr \<lparr>url = ''https://dns.google/dns-query'', domain = ''dns.google'', port = 443,
          t_ips = [ip_8_8_8_8, ip_8_8_8_8], has_listener = True\<rparr>
   \<and> \<not> distinct_ips [ip_8_8_8_8, ip_8_8_8_8]"
  by (simp add: NewDoHTransport_v1_def NewDoHTransport_v3_def env_google_def env_twice_def
      parse_google_def addAddrs_def ip_Equal_def ip_8_8_8_8_def ip_8_8_4_4_def
      ip16_8_8_8_8_def v4InV6Prefix_def)

section \<open>Properties of the hostname map\<close>

lemma step_keeps_installed: "m st h = Some p \<Longrightarrow> m (step e st) h = Some p"
  by (cases e) (auto simp: Let_def split: pc.splits option.splits)

lemma run_keeps_installed: "m st h = Some p \<Longrightarrow> m (run es st) h = Some p"
  by (induction es arbitrary: st) (auto simp: step_keeps_installed)

lemma step_returns_installed: "returns_installed st \<Longrightarrow> returns_installed (step e st)"
  by (cases e)
    (fastforce simp: returns_installed_def Let_def split: pc.splits option.splits)

lemma run_returns_installed: "returns_installed st \<Longrightarrow> returns_installed (run es st)"
  by (induction es arbitrary: st) (auto simp: step_returns_installed)

lemma NewIPMap_returns_installed: "returns_installed NewIPMap"
  by (simp add: returns_installed_def NewIPMap_def)

lemma ipMap_get_installs: "ipMap_get r st h = (st', p) \<Longrightarrow> m st' h = Some p"
  by (auto simp: ipMap_get_def Let_def split: option.splits)

lemma ipMap_get_keeps:
  "ipMap_get r st h = (st', p) \<Longrightarrow> m st h' = Some p' \<Longrightarrow> m st' h' = Some p'"
  by (auto simp: ipMap_get_def Let_def split: option.splits)

lemma ipMap_gets_installed:
  "(h, p) \<in> set (ipMap_gets st calls) \<Longrightarrow> m st h = Some p0 \<Longrightarrow> p = p0"
proof (induction calls arbitrary: st)
  case Nil
  then show ?case by simp
next
  case (Cons c calls)
  obtain r h' where c: "c = (r, h')"
    by (cases c)
  obtain st' s where g: "ipMap_get r st h' = (st', s)"
    by (cases "ipMap_get r st h'")
  have keep: "m st' h = Some p0"
    using g Cons.prems(2) by (rule ipMap_get_keeps)
  from Cons.prems(1) c g have "(h, p) = (h', s) \<or> (h, p) \<in> set (ipMap_gets st' calls)"
    by simp
  then show ?case
  proof
    assume "(h, p) = (h', s)"
    then show ?thesis
      using ipMap_get_installs [OF g] keep by simp
  next
    assume "(h, p) \<in> set (ipMap_gets st' calls)"
    then show ?thesis
      using Cons.IH keep by blast
  qed
qed

lemma ipMap_gets_same:
  "(h, p) \<in> set (ipMap_gets st calls) \<Longrightarrow> (h, p') \<in> set (ipMap_gets st calls) \<Longrightarrow> p = p'"
proof (induction calls arbitrary: st)
  case Nil
  then show ?case by simp
next
  case (Cons c calls)
  obtain r h' where c: "c = (r, h')"
    by (cases c)
  obtain st' s where g: "ipMap_get r st h' = (st', s)"
    by (cases "ipMap_get r st h'")
  have inst: "m st' h' = Some s"
    using g by (rule ipMap_get_installs)
  from Cons.prems c g
  have a: "(h, p) = (h', s) \<or> (h, p) \<in> set (ipMap_gets st' calls)"
    and b: "(h, p') = (h', s) \<or> (h, p') \<in> set (ipMap_gets st' calls)"
    by simp_all
  show ?case
    using a b inst Cons.IH ipMap_gets_installed by (metis prod.inject)
qed

text \<open>
  Claim C7: under every schedule of goroutines calling \<^verbatim>\<open>Get\<close> on a new map, an
  installed set stays installed whatever runs later; a set that \<^verbatim>\<open>Get\<close> returned for
  a hostname is the installed one; and two returns for the same hostname, by any
  goroutines and in any order, including a goroutine that built a set of its own and
  lost the install, are the same address. The same holds for a sequence of calls of the
  older \<^verbatim>\<open>get\<close>, which runs under one mutex.
\<close>

theorem Get_returns_same_set:
  "(m (run sched NewIPMap) h = Some p \<longrightarrow> m (run later (run sched NewIPMap)) h = Some p)
   \<and> ((h, p) \<in> set (returned (run sched NewIPMap)) \<longrightarrow> m (run sched NewIPMap) h = Some p)
   \<and> ((h, p) \<in> set (returned (run sched NewIPMap))
        \<and> (h, p') \<in> set (returned (run sched NewIPMap)) \<longrightarrow> p = p')
   \<and> ((h, p) \<in> set (ipMap_gets new_ipMap calls)
        \<and> (h, p') \<in> set (ipMap_gets new_ipMap calls) \<longrightarrow> p = p')"
proof -
  have inv: "returns_installed (run sched NewIPMap)"
    using NewIPMap_returns_installed by (rule run_returns_installed)
  have 1: "(h, q) \<in> set (returned (run sched NewIPMap)) \<Longrightarrow> m (run sched NewIPMap) h = Some q"
    for q
    using inv by (auto simp: returns_installed_def)
  show ?thesis
    using 1 [of p] 1 [of p'] run_keeps_installed ipMap_gets_same by fastforce
qed

theorem Get_returns_same_set_witness:
  "m (run race_schedule NewIPMap) ''dns.google'' = Some 1
   \<and> m (run later_schedule (run race_schedule NewIPMap)) ''dns.google'' = Some 1
   \<and> returned (run race_schedule NewIPMap) = [(''dns.google'', 1), (''dns.google'', 1)]
   \<and> returned (run later_schedule (run race_schedule NewIPMap))
       = [(''dns.google'', 1), (''dns.google'', 1), (''dns.google'', 1)]
   \<and> ipMap_gets new_ipMap [(resolver_8888, ''dns.google''), (resolver_8844, ''dns.google'')]
       = [(''dns.google'', 0), (''dns.google'', 0)]"
  using Get_returns_same_set
    [of race_schedule "''dns.google''" 1 later_schedule 1
        "[(resolver_8888, ''dns.google''), (resolver_8844, ''dns.google'')]"]
  by (simp add: race_schedule_def later_schedule_def NewIPMap_def ipMap_get_def new_ipMap_def)

end
